theory Spec2Isabelle
  imports Main
begin

section \<open>Chunk planning in \<open>get_batch\<close> (sotodlib/io/g3tsmurf\_utils.py)\<close>

text \<open>
  Python integers are unbounded, so every count and every control is an \<open>int\<close>.
  \<open>obs_dets\<close> is \<open>len(ts.dets)\<close> and \<open>obs_samps\<close> is \<open>obs.n_samples\<close>, both read
  from the database before the planning starts; they are parameters here.

  Exceptions are values. The planning arithmetic raises \<open>ZeroDivisionError\<close>
  only; the other constructors are the exceptions of the generator protocol, the two
  interpreter-exit exceptions that do not derive from \<open>Exception\<close>, and any other
  exception (all of which derive from \<open>Exception\<close>) with its message.
\<close>

datatype error =
    ZeroDivisionError
  | StopIteration
  | RuntimeError
  | GeneratorExit
  | KeyboardInterrupt
  | SystemExit
  | OtherException string

text \<open>
  An entry of \<open>det_chunks\<close> is whatever \<open>load_file\<close> accepts as \<open>channels\<close>: the
  planner builds \<open>range(a, b)\<close> objects, a caller may pass explicit channel lists.
  An entry of \<open>samp_chunks\<close> is a tuple \<open>(start, stop)\<close>.
\<close>

datatype det_chunk = Range int int | Channels "int list"

type_synonym samp_chunk = "int \<times> int"

text \<open>\<open>a // b\<close> on Python integers: floor division, raising on a zero divisor.\<close>

definition py_floordiv :: "int \<Rightarrow> int \<Rightarrow> error + int" where
  "py_floordiv a b = (if b = 0 then Inl ZeroDivisionError else Inr (a div b))"

text \<open>
  \<open>int(np.ceil(a / b))\<close> on Python integers: the true division raises on a zero
  divisor; otherwise the quotient is a double, rounded to nearest, and the result is
  its ceiling. The definition is the ceiling of the exact quotient. The two agree
  when \<open>0 \<le> a < 2^53\<close> and \<open>1 \<le> b < 2^53\<close>: then \<open>a\<close> and \<open>b\<close> are doubles, an
  integer quotient is exact, and any other quotient lies at least \<open>1/b\<close> above the
  integer below it, which is more than half the spacing of the doubles there. They
  differ beyond: \<open>10 / 10**400\<close> is \<open>0.0\<close>, with ceiling 0 and not 1, and
  \<open>(2**53 + 1) / 1\<close> is \<open>2**53\<close>. Every theorem below that depends on the value of
  a ceiling is either an evaluation at operands in this range or carries the bound
  \<open>2^53\<close> on the sizes and the controls as a hypothesis.
\<close>

definition py_ceildiv :: "int \<Rightarrow> int \<Rightarrow> error + int" where
  "py_ceildiv a b = (if b = 0 then Inl ZeroDivisionError else Inr (- ((- a) div b)))"

text \<open>\<open>range(n)\<close> as a list: empty when \<open>n \<le> 0\<close>.\<close>

definition py_range :: "int \<Rightarrow> int list" where
  "py_range n = map int [0..<nat n]"

text \<open>
  The two list comprehensions of the source:
  \<open>[range(i*n_dets, min((i+1)*n_dets, obs_dets)) for i in range(n_det_chunks)]\<close> and
  \<open>[(i*n_samps, min((i+1)*n_samps, obs_samps)) for i in range(n_samp_chunks)]\<close>.
\<close>

definition det_ranges :: "int \<Rightarrow> int \<Rightarrow> int \<Rightarrow> det_chunk list" where
  "det_ranges n_dets obs_dets n_det_chunks =
     map (\<lambda>i. Range (i * n_dets) (min ((i + 1) * n_dets) obs_dets)) (py_range n_det_chunks)"

definition samp_ranges :: "int \<Rightarrow> int \<Rightarrow> int \<Rightarrow> samp_chunk list" where
  "samp_ranges n_samps obs_samps n_samp_chunks =
     map (\<lambda>i. (i * n_samps, min ((i + 1) * n_samps) obs_samps)) (py_range n_samp_chunks)"

subsection \<open>The \<open>ram_limit\<close> search\<close>

text \<open>
  The loop
  \<^verbatim>\<open>
    while n_dets == 0:
        n_samp_chunks += 1
        n_samps = obs_samps//n_samp_chunks
        n_dets = pts_limit // (n_samps)
  \<close>
  on the loop state \<open>(n_samp_chunks, n_samps, n_dets)\<close>. Nothing in the source bounds
  the number of iterations, so the loop is a partial function: \<open>None\<close> is a run that
  never leaves the loop, \<open>Some (Inl e)\<close> a run that raises \<open>e\<close>.
\<close>

partial_function (option) ram_search ::
  "int \<Rightarrow> int \<Rightarrow> int \<Rightarrow> int \<Rightarrow> int \<Rightarrow> (error + int \<times> int \<times> int) option" where
  "ram_search pts_limit obs_samps n_samp_chunks n_samps n_dets =
     (if n_dets = 0 then
        (case py_floordiv obs_samps (n_samp_chunks + 1) of
           Inl e \<Rightarrow> Some (Inl e)
         | Inr n_samps' \<Rightarrow>
             (case py_floordiv pts_limit n_samps' of
                Inl e \<Rightarrow> Some (Inl e)
              | Inr n_dets' \<Rightarrow>
                  ram_search pts_limit obs_samps (n_samp_chunks + 1) n_samps' n_dets'))
      else Some (Inr (n_samp_chunks, n_samps, n_dets)))"

declare ram_search.simps [code]

text \<open>The chunking controls of \<open>get_batch\<close>, each \<open>None\<close> by default.\<close>

record controls =
  n_det_chunks :: "int option"
  n_samp_chunks :: "int option"
  n_dets :: "int option"
  n_samps :: "int option"
  det_chunks :: "det_chunk list option"
  samp_chunks :: "samp_chunk list option"

definition no_controls :: controls where
  "no_controls = \<lparr> n_det_chunks = None, n_samp_chunks = None, n_dets = None,
                   n_samps = None, det_chunks = None, samp_chunks = None \<rparr>"

text \<open>
  Lines 162-169: \<open>pts_limit = int(ram_limit // 4)\<close>, the initial state
  \<open>n_samp_chunks = 1\<close>, \<open>n_samps = obs_samps\<close>, \<open>n_dets = pts_limit // n_samps\<close>,
  and the loop. (\<open>ram_limit\<close> is an integer number of bytes here; a float enters
  the source only through its floor division by 4.)
\<close>

definition ram_sizing :: "int \<Rightarrow> int \<Rightarrow> (error + int \<times> int \<times> int) option" where
  "ram_sizing ram_limit obs_samps =
     (let pts_limit = ram_limit div 4 in
      case py_floordiv pts_limit obs_samps of
        Inl e \<Rightarrow> Some (Inl e)
      | Inr n_dets0 \<Rightarrow> ram_search pts_limit obs_samps 1 obs_samps n_dets0)"

text \<open>
  The block under \<open>if ram_limit is not None\<close> (lines 161-170): it overwrites
  \<open>n_samp_chunks\<close>, \<open>n_samps\<close>, \<open>n_dets\<close> and, with
  \<open>int(np.ceil(obs_dets/n_dets))\<close>, \<open>n_det_chunks\<close>.
\<close>

definition ram_block :: "int \<Rightarrow> int \<Rightarrow> int \<Rightarrow> controls \<Rightarrow> (error + controls) option" where
  "ram_block ram_limit obs_dets obs_samps c =
     (case ram_sizing ram_limit obs_samps of
        None \<Rightarrow> None
      | Some (Inl e) \<Rightarrow> Some (Inl e)
      | Some (Inr (nsc, ns, nd)) \<Rightarrow>
          (case py_ceildiv obs_dets nd of
             Inl e \<Rightarrow> Some (Inl e)
           | Inr ndc \<Rightarrow>
               Some (Inr (c\<lparr> n_samp_chunks := Some nsc, n_samps := Some ns,
                              n_dets := Some nd, n_det_chunks := Some ndc \<rparr>))))"

subsection \<open>The four control blocks and the defaults\<close>

text \<open>Lines 172-175: \<open>if n_det_chunks is not None\<close>.\<close>

definition det_count_block :: "int \<Rightarrow> controls \<Rightarrow> error + controls" where
  "det_count_block obs_dets c =
     (case n_det_chunks c of
        None \<Rightarrow> Inr c
      | Some k \<Rightarrow>
          (case py_ceildiv obs_dets k of
             Inl e \<Rightarrow> Inl e
           | Inr nd \<Rightarrow> Inr (c\<lparr> n_dets := Some nd,
                                det_chunks := Some (det_ranges nd obs_dets k) \<rparr>)))"

text \<open>Lines 176-179: \<open>if n_samp_chunks is not None\<close>.\<close>

definition samp_count_block :: "int \<Rightarrow> controls \<Rightarrow> error + controls" where
  "samp_count_block obs_samps c =
     (case n_samp_chunks c of
        None \<Rightarrow> Inr c
      | Some k \<Rightarrow>
          (case py_ceildiv obs_samps k of
             Inl e \<Rightarrow> Inl e
           | Inr ns \<Rightarrow> Inr (c\<lparr> n_samps := Some ns,
                                samp_chunks := Some (samp_ranges ns obs_samps k) \<rparr>)))"

text \<open>Lines 181-184: \<open>if n_dets is not None\<close>.\<close>

definition det_size_block :: "int \<Rightarrow> controls \<Rightarrow> error + controls" where
  "det_size_block obs_dets c =
     (case n_dets c of
        None \<Rightarrow> Inr c
      | Some nd \<Rightarrow>
          (case py_ceildiv obs_dets nd of
             Inl e \<Rightarrow> Inl e
           | Inr k \<Rightarrow> Inr (c\<lparr> n_det_chunks := Some k,
                               det_chunks := Some (det_ranges nd obs_dets k) \<rparr>)))"

text \<open>Lines 185-188: \<open>if n_samps is not None\<close>.\<close>

definition samp_size_block :: "int \<Rightarrow> controls \<Rightarrow> error + controls" where
  "samp_size_block obs_samps c =
     (case n_samps c of
        None \<Rightarrow> Inr c
      | Some ns \<Rightarrow>
          (case py_ceildiv obs_samps ns of
             Inl e \<Rightarrow> Inl e
           | Inr k \<Rightarrow> Inr (c\<lparr> n_samp_chunks := Some k,
                               samp_chunks := Some (samp_ranges ns obs_samps k) \<rparr>)))"

text \<open>Lines 190-193: the defaults, one chunk holding the whole axis.\<close>

definition default_chunks :: "int \<Rightarrow> int \<Rightarrow> controls \<Rightarrow> det_chunk list \<times> samp_chunk list" where
  "default_chunks obs_dets obs_samps c =
     ((case det_chunks c of None \<Rightarrow> [Range 0 obs_dets] | Some dcs \<Rightarrow> dcs),
      (case samp_chunks c of None \<Rightarrow> [(0, obs_samps)] | Some scs \<Rightarrow> scs))"

text \<open>Lines 172-193 in sequence; an exception in one block ends the run.\<close>

definition resolve_blocks ::
  "int \<Rightarrow> int \<Rightarrow> controls \<Rightarrow> error + det_chunk list \<times> samp_chunk list" where
  "resolve_blocks obs_dets obs_samps c =
     (case det_count_block obs_dets c of
        Inl e \<Rightarrow> Inl e
      | Inr c1 \<Rightarrow>
          (case samp_count_block obs_samps c1 of
             Inl e \<Rightarrow> Inl e
           | Inr c2 \<Rightarrow>
               (case det_size_block obs_dets c2 of
                  Inl e \<Rightarrow> Inl e
                | Inr c3 \<Rightarrow>
                    (case samp_size_block obs_samps c3 of
                       Inl e \<Rightarrow> Inl e
                     | Inr c4 \<Rightarrow> Inr (default_chunks obs_dets obs_samps c4)))))"

text \<open>
  Lines 161-193: the chunk lists \<open>get_batch\<close> iterates over, for an observation of
  \<open>obs_dets\<close> detectors and \<open>obs_samps\<close> samples.
\<close>

definition get_batch_chunks ::
  "int \<Rightarrow> int \<Rightarrow> int option \<Rightarrow> controls \<Rightarrow> (error + det_chunk list \<times> samp_chunk list) option" where
  "get_batch_chunks obs_dets obs_samps ram_limit c =
     (case ram_limit of
        None \<Rightarrow> Some (resolve_blocks obs_dets obs_samps c)
      | Some r \<Rightarrow>
          (case ram_block r obs_dets obs_samps c of
             None \<Rightarrow> None
           | Some (Inl e) \<Rightarrow> Some (Inl e)
           | Some (Inr c') \<Rightarrow> Some (resolve_blocks obs_dets obs_samps c')))"

subsection \<open>The nested loops over the chunk lists\<close>

text \<open>
  Lines 208-211 with \<open>test=True\<close>: the inner loop over \<open>samp_chunks\<close> for one
  \<open>det_chunk\<close>, and the outer loop over \<open>det_chunks\<close>. The list is the sequence of
  values yielded.
\<close>

primrec samp_loop :: "det_chunk \<Rightarrow> samp_chunk list \<Rightarrow> (det_chunk \<times> samp_chunk) list" where
  "samp_loop det_chunk [] = []"
| "samp_loop det_chunk (samp_chunk # rest) = (det_chunk, samp_chunk) # samp_loop det_chunk rest"

primrec det_loop :: "det_chunk list \<Rightarrow> samp_chunk list \<Rightarrow> (det_chunk \<times> samp_chunk) list" where
  "det_loop [] scs = []"
| "det_loop (det_chunk # rest) scs = samp_loop det_chunk scs @ det_loop rest scs"

text \<open>\<open>get_batch(..., test=True)\<close>: everything the generator yields, in order.\<close>

definition get_batch ::
  "int \<Rightarrow> int \<Rightarrow> int option \<Rightarrow> controls \<Rightarrow> (error + (det_chunk \<times> samp_chunk) list) option" where
  "get_batch obs_dets obs_samps ram_limit c =
     (case get_batch_chunks obs_dets obs_samps ram_limit c of
        None \<Rightarrow> None
      | Some (Inl e) \<Rightarrow> Some (Inl e)
      | Some (Inr (dcs, scs)) \<Rightarrow> Some (Inr (det_loop dcs scs)))"

text \<open>
  The size of a chunk as the \<open>ram_limit\<close> sizing counts it: \<open>len(det_chunk)\<close>
  detectors times \<open>samp_chunk[1] - samp_chunk[0]\<close> samples, at 4 bytes per point.
\<close>

fun det_len :: "det_chunk \<Rightarrow> int" where
  "det_len (Range a b) = max 0 (b - a)"
| "det_len (Channels xs) = int (length xs)"

definition chunk_bytes :: "det_chunk \<times> samp_chunk \<Rightarrow> int" where
  "chunk_bytes ch = det_len (fst ch) * (snd (snd ch) - fst (snd ch)) * 4"

subsection \<open>\<open>get_batch\<close> as a generator object\<close>

text \<open>
  One call of \<open>get_batch\<close>: what the database reports for the observation, the
  arguments, and \<open>load_file\<close>, which reads the files of the observation for one chunk
  and may raise.
\<close>

record 'a call =
  db_dets :: int
  db_samps :: int
  ram_limit :: "int option"
  ctl :: controls
  test :: bool
  load_file :: "det_chunk \<Rightarrow> samp_chunk \<Rightarrow> error + 'a"

text \<open>
  What the generator does to the outside world, chunk by chunk, is the sequence of
  \<open>load_file\<close> calls it has made; it writes nothing. (The first \<open>next\<close> also reads
  the database and, unless a status is passed in, the status of the first file, before
  any chunk is visited; these reads are the same for every plan and are left out of
  the trace.)
\<close>

type_synonym trace = "(det_chunk \<times> samp_chunk) list"

datatype 'a item = Chunk det_chunk samp_chunk | Loaded 'a

text \<open>
  Resuming a generator either reaches the next \<open>yield\<close>, or the body returns (the
  caller of \<open>next\<close> sees \<open>StopIteration\<close>), or an exception leaves the body.
\<close>

datatype 'a outcome = Yielded "'a item" | Returned | Raised error

text \<open>
  The generator is created without running any of its body; once started it is
  suspended at the \<open>yield\<close> inside the two loops, which still have \<open>pending\<close> pairs to
  visit; then it is finished.
\<close>

datatype gen_state = Created | Suspended "(det_chunk \<times> samp_chunk) list" | Finished

text \<open>
  An exception that leaves the body of a generator reaches the caller as it is, but
  for \<open>StopIteration\<close>, which Python (PEP 479) turns into \<open>RuntimeError\<close>.
\<close>

definition leaves_body :: "error \<Rightarrow> error" where
  "leaves_body e = (if e = StopIteration then RuntimeError else e)"

text \<open>
  Lines 207-222 from the head of the loops to the next \<open>yield\<close>. An exception of
  \<open>load_file\<close> is raised inside the \<open>try\<close>: \<open>except GeneratorExit: pass\<close> swallows a
  \<open>GeneratorExit\<close> and the body returns; any other exception leaves the body.
\<close>

definition run_loops ::
  "'a call \<Rightarrow> (det_chunk \<times> samp_chunk) list \<Rightarrow> trace \<Rightarrow> 'a outcome \<times> gen_state \<times> trace" where
  "run_loops cl pending tr =
     (case pending of
        [] \<Rightarrow> (Returned, Finished, tr)
      | (det_chunk, samp_chunk) # rest \<Rightarrow>
          if test cl then (Yielded (Chunk det_chunk samp_chunk), Suspended rest, tr)
          else (case load_file cl det_chunk samp_chunk of
                  Inl e \<Rightarrow>
                    if e = GeneratorExit
                    then (Returned, Finished, tr @ [(det_chunk, samp_chunk)])
                    else (Raised (leaves_body e), Finished, tr @ [(det_chunk, samp_chunk)])
                | Inr aman \<Rightarrow>
                    (Yielded (Loaded aman), Suspended rest, tr @ [(det_chunk, samp_chunk)])))"

text \<open>
  \<open>next(g)\<close>. The first call runs the body from its start: the planning of lines
  161-193 (which may raise, or not return) and then the loops. \<open>None\<close> is a call that
  does not return.
\<close>

definition gen_next ::
  "'a call \<Rightarrow> gen_state \<Rightarrow> trace \<Rightarrow> ('a outcome \<times> gen_state \<times> trace) option" where
  "gen_next cl g tr =
     (case g of
        Created \<Rightarrow>
          (case get_batch_chunks (db_dets cl) (db_samps cl) (ram_limit cl) (ctl cl) of
             None \<Rightarrow> None
           | Some (Inl e) \<Rightarrow> Some (Raised (leaves_body e), Finished, tr)
           | Some (Inr (dcs, scs)) \<Rightarrow> Some (run_loops cl (det_loop dcs scs) tr))
      | Suspended pending \<Rightarrow> Some (run_loops cl pending tr)
      | Finished \<Rightarrow> Some (Returned, Finished, tr))"

text \<open>
  \<open>g.throw(e)\<close>. In a suspended generator the exception is raised at the \<open>yield\<close>,
  inside the \<open>try\<close> of line 207: the handler of line 221 catches \<open>GeneratorExit\<close>,
  does nothing, and the body ends; any other exception leaves the body. In a generator
  that has not started the exception is raised at the start of the body, before the
  \<open>try\<close>, and leaves it. A finished generator has no body left and re-raises the
  exception as it is.
\<close>

definition gen_throw :: "error \<Rightarrow> gen_state \<Rightarrow> trace \<Rightarrow> 'a outcome \<times> gen_state \<times> trace" where
  "gen_throw e g tr =
     (case g of
        Created \<Rightarrow> (Raised (leaves_body e), Finished, tr)
      | Suspended pending \<Rightarrow>
          if e = GeneratorExit then (Returned, Finished, tr)
          else (Raised (leaves_body e), Finished, tr)
      | Finished \<Rightarrow> (Raised e, Finished, tr))"

text \<open>
  \<open>g.close()\<close>, Python's protocol: a suspended generator gets \<open>GeneratorExit\<close> thrown
  in; if it then returns, or lets \<open>GeneratorExit\<close> or \<open>StopIteration\<close> out, \<open>close\<close>
  returns normally (\<open>None\<close> here); if it yields again \<open>close\<close> raises \<open>RuntimeError\<close>;
  any other exception propagates. Otherwise nothing of the body runs.
\<close>

definition gen_close :: "'a call \<Rightarrow> gen_state \<Rightarrow> trace \<Rightarrow> error option \<times> gen_state \<times> trace" where
  "gen_close cl g tr =
     (case g of
        Suspended pending \<Rightarrow>
          (case (gen_throw GeneratorExit g tr :: 'a outcome \<times> gen_state \<times> trace) of
             (Yielded x, g', tr') \<Rightarrow> (Some RuntimeError, g', tr')
           | (Returned, g', tr') \<Rightarrow> (None, g', tr')
           | (Raised e, g', tr') \<Rightarrow>
               if e = GeneratorExit \<or> e = StopIteration then (None, g', tr')
               else (Some e, g', tr'))
      | _ \<Rightarrow> (None, Finished, tr))"

text \<open>
  A consumer that takes up to \<open>n\<close> items with \<open>next\<close> and stops earlier when the
  generator ends: the items, the generator's state and the trace afterwards.
\<close>

fun consume ::
  "'a call \<Rightarrow> nat \<Rightarrow> gen_state \<Rightarrow> trace \<Rightarrow> ('a item list \<times> gen_state \<times> trace) option" where
  "consume cl 0 g tr = Some ([], g, tr)"
| "consume cl (Suc n) g tr =
     (case gen_next cl g tr of
        None \<Rightarrow> None
      | Some (Yielded x, g', tr') \<Rightarrow>
          (case consume cl n g' tr' of
             None \<Rightarrow> None
           | Some (xs, g'', tr'') \<Rightarrow> Some (x # xs, g'', tr''))
      | Some (Returned, g', tr') \<Rightarrow> Some ([], g', tr')
      | Some (Raised e, g', tr') \<Rightarrow> Some ([], g', tr'))"

subsection \<open>Closed form of the control blocks\<close>

text \<open>
  What lines 172-193 compute for one axis, as a function of the controls of that axis
  alone; \<open>None\<close> stands for the \<open>ZeroDivisionError\<close>. \<open>resolve_blocks_sides\<close> below
  proves that \<open>resolve_blocks\<close> is the pair of the two.
\<close>

definition det_side ::
  "int \<Rightarrow> int option \<Rightarrow> int option \<Rightarrow> det_chunk list option \<Rightarrow> det_chunk list option" where
  "det_side D ndc nd dc =
     (case ndc of
        Some k \<Rightarrow>
          if k = 0 \<or> - ((- D) div k) = 0 then None
          else Some (det_ranges (- ((- D) div k)) D (- ((- D) div (- ((- D) div k)))))
      | None \<Rightarrow>
          (case nd of
             Some n \<Rightarrow> if n = 0 then None else Some (det_ranges n D (- ((- D) div n)))
           | None \<Rightarrow> Some (case dc of None \<Rightarrow> [Range 0 D] | Some d \<Rightarrow> d)))"

definition samp_side ::
  "int \<Rightarrow> int option \<Rightarrow> int option \<Rightarrow> samp_chunk list option \<Rightarrow> samp_chunk list option" where
  "samp_side S nsc ns sc =
     (case nsc of
        Some k \<Rightarrow>
          if k = 0 \<or> - ((- S) div k) = 0 then None
          else Some (samp_ranges (- ((- S) div k)) S (- ((- S) div (- ((- S) div k)))))
      | None \<Rightarrow>
          (case ns of
             Some n \<Rightarrow> if n = 0 then None else Some (samp_ranges n S (- ((- S) div n)))
           | None \<Rightarrow> Some (case sc of None \<Rightarrow> [(0, S)] | Some d \<Rightarrow> d)))"

subsection \<open>Partitions of an axis\<close>

text \<open>
  A list of half-open ranges \<open>(start, stop)\<close> partitions \<open>[0, n)\<close>: each range stops
  where the next one starts, the starts increase strictly, the ranges are pairwise
  disjoint, and together they cover exactly \<open>[0, n)\<close>.
\<close>

definition partitions :: "int \<Rightarrow> (int \<times> int) list \<Rightarrow> bool" where
  "partitions n bs \<longleftrightarrow>
     map snd (butlast bs) = map fst (tl bs)
     \<and> sorted_wrt (<) (map fst bs)
     \<and> sorted_wrt (\<lambda>b c. {fst b..<snd b} \<inter> {fst c..<snd c} = {}) bs
     \<and> (\<Union>b\<in>set bs. {fst b..<snd b}) = {0..<n}"

section \<open>The observation loop of \<open>main\<close> (sotodlib/site\_pipeline/make\_level3\_hk.py)\<close>

subsection \<open>The observation query (lines 123-135)\<close>

text \<open>\<open>str(i)\<close> for a Python integer, which is what an f-string inserts.\<close>

definition digit_char :: "nat \<Rightarrow> char" where
  "digit_char d = char_of (48 + d)"

fun str_nat :: "nat \<Rightarrow> string" where
  "str_nat n = (if n < 10 then [digit_char n] else str_nat (n div 10) @ [digit_char (n mod 10)])"

definition str_int :: "int \<Rightarrow> string" where
  "str_int i = (if i < 0 then CHR ''-'' # str_nat (nat (- i)) else str_nat (nat i))"

text \<open>
  The slice \<open>s[i:-j]\<close> for \<open>i \<ge> 0\<close> and \<open>j > 0\<close>: Python clips both ends to
  the string, so a string shorter than \<open>i + j\<close> gives the empty string.
\<close>

definition py_slice :: "nat \<Rightarrow> nat \<Rightarrow> 'a list \<Rightarrow> 'a list" where
  "py_slice i j s = drop i (take (length s - j) s)"

text \<open>
  Lines 123-135. The arguments are the values at line 123, after the command line
  and the configuration file have been merged; \<open>min_ctime\<close> and \<open>max_ctime\<close> are
  integers, as the command line parses them.
\<close>

definition build_query ::
  "string option \<Rightarrow> string option \<Rightarrow> int option \<Rightarrow> int option \<Rightarrow> string" where
  "build_query obs_id query_text min_ctime max_ctime =
     (case obs_id of
        Some oid \<Rightarrow> ''obs_id=='' @ [CHR 0x27] @ oid @ [CHR 0x27]
      | None \<Rightarrow>
          (let q0 = ''and '';
               q1 = (case query_text of None \<Rightarrow> q0 | Some t \<Rightarrow> q0 @ t @ '' and '');
               q2 = (case min_ctime of None \<Rightarrow> q1
                     | Some m \<Rightarrow> q1 @ ''timestamp>='' @ str_int m @ '' and '');
               q3 = (case max_ctime of None \<Rightarrow> q2
                     | Some m \<Rightarrow> q2 @ ''timestamp<='' @ str_int m @ '' and '');
               q4 = py_slice 4 4 q3
           in if q4 = [] then ''1'' else q4))"

text \<open>
  What the specification says the query is when \<open>obs_id\<close> is absent: the supplied
  filters, in order, joined by \<open>" and "\<close>.
\<close>

definition spec_filters :: "string option \<Rightarrow> int option \<Rightarrow> int option \<Rightarrow> string list" where
  "spec_filters query_text min_ctime max_ctime =
     (case query_text of None \<Rightarrow> [] | Some t \<Rightarrow> [t])
     @ (case min_ctime of None \<Rightarrow> [] | Some m \<Rightarrow> [''timestamp>='' @ str_int m])
     @ (case max_ctime of None \<Rightarrow> [] | Some m \<Rightarrow> [''timestamp<='' @ str_int m])"

fun spec_conjunction :: "string list \<Rightarrow> string" where
  "spec_conjunction [] = []"
| "spec_conjunction [f] = f"
| "spec_conjunction (f # g # fs) = f @ '' and '' @ spec_conjunction (g # fs)"

subsection \<open>The loop over the observations (lines 141-183)\<close>









section \<open>Properties of the chunk planner\<close>

subsection \<open>The control blocks, axis by axis\<close>

lemma resolve_blocks_sides:
  "resolve_blocks D S c =
     (case det_side D (n_det_chunks c) (n_dets c) (det_chunks c) of
        None \<Rightarrow> Inl ZeroDivisionError
      | Some d \<Rightarrow>
          (case samp_side S (n_samp_chunks c) (n_samps c) (samp_chunks c) of
             None \<Rightarrow> Inl ZeroDivisionError
           | Some s \<Rightarrow> Inr (d, s)))"
proof (cases c)
  case (fields ndc nsc nd ns dc sc)
  show ?thesis
    unfolding fields resolve_blocks_def det_count_block_def samp_count_block_def
      det_size_block_def samp_size_block_def default_chunks_def det_side_def samp_side_def
      py_ceildiv_def
    by (cases ndc; cases nsc; cases nd; cases ns; simp)
qed


lemma get_batch_chunks_ram:
  "get_batch_chunks D S (Some r) c =
     (case ram_sizing r S of
        None \<Rightarrow> None
      | Some (Inl e) \<Rightarrow> Some (Inl e)
      | Some (Inr (nsc, ns, nd)) \<Rightarrow>
          (case py_ceildiv D nd of
             Inl e \<Rightarrow> Some (Inl e)
           | Inr ndc \<Rightarrow>
               Some (case det_side D (Some ndc) None None of
                       None \<Rightarrow> Inl ZeroDivisionError
                     | Some d \<Rightarrow>
                         (case samp_side S (Some nsc) None None of
                            None \<Rightarrow> Inl ZeroDivisionError
                          | Some s \<Rightarrow> Inr (d, s)))))"
  unfolding get_batch_chunks_def ram_block_def resolve_blocks_sides
  by (simp add: det_side_def samp_side_def split: option.splits sum.splits prod.splits)

lemma get_batch_chunks_None:
  "get_batch_chunks D S None c =
     Some (case det_side D (n_det_chunks c) (n_dets c) (det_chunks c) of
        None \<Rightarrow> Inl ZeroDivisionError
      | Some d \<Rightarrow>
          (case samp_side S (n_samp_chunks c) (n_samps c) (samp_chunks c) of
             None \<Rightarrow> Inl ZeroDivisionError
           | Some s \<Rightarrow> Inr (d, s)))"
  unfolding get_batch_chunks_def resolve_blocks_sides by simp

lemma det_side_count: "det_side D (Some k) a b = det_side D (Some k) None None"
  by (simp add: det_side_def)

lemma samp_side_count: "samp_side S (Some k) a b = samp_side S (Some k) None None"
  by (simp add: samp_side_def)

lemma det_side_size: "det_side D x (Some n) b = det_side D x (Some n) None"
  by (simp add: det_side_def split: option.splits)

lemma samp_side_size: "samp_side S x (Some n) b = samp_side S x (Some n) None"
  by (simp add: samp_side_def split: option.splits)

subsection \<open>Precedence of the controls\<close>

text \<open>
  Claim C1, as the code has it. With \<open>ram_limit\<close> set, the outcome of the planning
  (the chunk lists, or the exception) is the same whatever the other six controls are.
  Without it, a chunk count makes the outcome independent of the per-chunk size and of
  the chunk list of its axis, and a per-chunk size makes it independent of the chunk
  list. And whenever two calls that differ only in the sample controls both return,
  they return the same detector chunks; likewise for the sample chunks of two calls
  that differ only in the detector controls.
\<close>

theorem control_precedence:
  "get_batch_chunks D S (Some r) c = get_batch_chunks D S (Some r) no_controls
   \<and> (n_det_chunks c = Some k \<longrightarrow>
        get_batch_chunks D S None (c\<lparr>n_dets := nd, det_chunks := dc\<rparr>) = get_batch_chunks D S None c)
   \<and> (n_samp_chunks c = Some k \<longrightarrow>
        get_batch_chunks D S None (c\<lparr>n_samps := ns, samp_chunks := sc\<rparr>) = get_batch_chunks D S None c)
   \<and> (n_dets c = Some n \<longrightarrow>
        get_batch_chunks D S None (c\<lparr>det_chunks := dc\<rparr>) = get_batch_chunks D S None c)
   \<and> (n_samps c = Some n \<longrightarrow>
        get_batch_chunks D S None (c\<lparr>samp_chunks := sc\<rparr>) = get_batch_chunks D S None c)
   \<and> (get_batch_chunks D S rl c = Some (Inr (dcs, scs)) \<and>
       get_batch_chunks D S rl (c\<lparr>n_samp_chunks := nsc', n_samps := ns', samp_chunks := sc'\<rparr>)
         = Some (Inr (dcs', scs')) \<longrightarrow> dcs' = dcs)
   \<and> (get_batch_chunks D S rl c = Some (Inr (dcs, scs)) \<and>
       get_batch_chunks D S rl (c\<lparr>n_det_chunks := ndc', n_dets := nd', det_chunks := dc'\<rparr>)
         = Some (Inr (dcs'', scs'')) \<longrightarrow> scs'' = scs)"
proof (intro conjI impI)
  show "get_batch_chunks D S (Some r) c = get_batch_chunks D S (Some r) no_controls"
    by (simp only: get_batch_chunks_ram)
next
  assume "n_det_chunks c = Some k"
  then show "get_batch_chunks D S None (c\<lparr>n_dets := nd, det_chunks := dc\<rparr>) = get_batch_chunks D S None c"
    by (simp add: get_batch_chunks_None det_side_count [of D k nd dc] det_side_count [of D k "n_dets c" "det_chunks c"]
          cong: option.case_cong)
next
  assume "n_samp_chunks c = Some k"
  then show "get_batch_chunks D S None (c\<lparr>n_samps := ns, samp_chunks := sc\<rparr>) = get_batch_chunks D S None c"
    by (simp add: get_batch_chunks_None samp_side_count [of S k ns sc] samp_side_count [of S k "n_samps c" "samp_chunks c"]
          cong: option.case_cong)
next
  assume "n_dets c = Some n"
  then show "get_batch_chunks D S None (c\<lparr>det_chunks := dc\<rparr>) = get_batch_chunks D S None c"
    by (simp add: get_batch_chunks_None det_side_size [of D _ n dc] det_side_size [of D _ n "det_chunks c"]
          cong: option.case_cong)
next
  assume "n_samps c = Some n"
  then show "get_batch_chunks D S None (c\<lparr>samp_chunks := sc\<rparr>) = get_batch_chunks D S None c"
    by (simp add: get_batch_chunks_None samp_side_size [of S _ n sc] samp_side_size [of S _ n "samp_chunks c"]
          cong: option.case_cong)
next
  assume h: "get_batch_chunks D S rl c = Some (Inr (dcs, scs)) \<and>
       get_batch_chunks D S rl (c\<lparr>n_samp_chunks := nsc', n_samps := ns', samp_chunks := sc'\<rparr>)
         = Some (Inr (dcs', scs'))"
  show "dcs' = dcs"
  proof (cases rl)
    case None
    with h show ?thesis
      by (auto simp: get_batch_chunks_None split: option.splits)
  next
    case (Some r)
    have "get_batch_chunks D S (Some r) (c\<lparr>n_samp_chunks := nsc', n_samps := ns', samp_chunks := sc'\<rparr>)
          = get_batch_chunks D S (Some r) c"
      by (simp only: get_batch_chunks_ram)
    with h Some show ?thesis by auto
  qed
next
  assume h: "get_batch_chunks D S rl c = Some (Inr (dcs, scs)) \<and>
       get_batch_chunks D S rl (c\<lparr>n_det_chunks := ndc', n_dets := nd', det_chunks := dc'\<rparr>)
         = Some (Inr (dcs'', scs''))"
  show "scs'' = scs"
  proof (cases rl)
    case None
    with h show ?thesis
      by (auto simp: get_batch_chunks_None split: option.splits)
  next
    case (Some r)
    have "get_batch_chunks D S (Some r) (c\<lparr>n_det_chunks := ndc', n_dets := nd', det_chunks := dc'\<rparr>)
          = get_batch_chunks D S (Some r) c"
      by (simp only: get_batch_chunks_ram)
    with h Some show ?thesis by auto
  qed
qed

theorem control_precedence_witness:
  "get_batch_chunks 10 7 None (no_controls\<lparr>n_dets := Some 4\<rparr>)
     = Some (Inr ([Range 0 4, Range 4 8, Range 8 10], [(0, 7)]))
   \<and> get_batch_chunks 10 7 None
        (no_controls\<lparr>n_dets := Some 4, n_samp_chunks := None, n_samps := Some 3, samp_chunks := None\<rparr>)
     = Some (Inr ([Range 0 4, Range 4 8, Range 8 10], [(0, 3), (3, 6), (6, 7)]))
   \<and> n_det_chunks (no_controls\<lparr>n_det_chunks := Some 2\<rparr>) = Some 2
   \<and> get_batch_chunks 10 7 None
        (no_controls\<lparr>n_det_chunks := Some 2, n_dets := Some 4, det_chunks := Some []\<rparr>)
     = get_batch_chunks 10 7 None (no_controls\<lparr>n_det_chunks := Some 2\<rparr>)"
proof -
  have h1: "get_batch_chunks 10 7 None (no_controls\<lparr>n_dets := Some 4\<rparr>)
              = Some (Inr ([Range 0 4, Range 4 8, Range 8 10], [(0, 7)]))"
    by code_simp
  have h2: "get_batch_chunks 10 7 None
              (no_controls\<lparr>n_dets := Some 4, n_samp_chunks := None, n_samps := Some 3, samp_chunks := None\<rparr>)
              = Some (Inr ([Range 0 4, Range 4 8, Range 8 10], [(0, 3), (3, 6), (6, 7)]))"
    by code_simp
  have h3: "n_det_chunks (no_controls\<lparr>n_det_chunks := Some 2\<rparr>) = Some 2"
    by simp
  have h4: "get_batch_chunks 10 7 None
              (no_controls\<lparr>n_det_chunks := Some 2, n_dets := Some 4, det_chunks := Some []\<rparr>)
            = get_batch_chunks 10 7 None (no_controls\<lparr>n_det_chunks := Some 2\<rparr>)"
    using h3 control_precedence [where D = 10 and S = 7 and k = 2 and nd = "Some 4"
        and dc = "Some []" and c = "no_controls\<lparr>n_det_chunks := Some 2\<rparr>"]
    by simp
  show ?thesis
    using h1 h2 h3 h4 by simp
qed

text \<open>
  The independence does not extend to calls that raise: with no control at all the
  planner returns the whole detector axis, and with \<open>n_samps=0\<close> as the only
  control the division of line 186 raises before any detector range is produced.
\<close>

theorem sample_control_changes_outcome:
  "get_batch_chunks 1 1 None no_controls = Some (Inr ([Range 0 1], [(0, 1)]))
   \<and> get_batch_chunks 1 1 None (no_controls\<lparr> n_samps := Some 0 \<rparr>) = Some (Inl ZeroDivisionError)"
  by code_simp

subsection \<open>Worked plans\<close>

text \<open>
  Claim C3: for 1000 detectors and 10000 samples, \<open>n_dets=300\<close> alone yields the
  detector ranges \<open>[0,300)\<close>, \<open>[300,600)\<close>, \<open>[600,900)\<close>, \<open>[900,1000)\<close>, in this order,
  each with the sample range \<open>(0, 10000)\<close>.
\<close>

theorem plan_n_dets_300:
  "get_batch 1000 10000 None (no_controls\<lparr> n_dets := Some 300 \<rparr>) =
     Some (Inr [(Range 0 300, (0, 10000)), (Range 300 600, (0, 10000)),
                (Range 600 900, (0, 10000)), (Range 900 1000, (0, 10000))])"
  by code_simp

text \<open>
  Claim C9: with no chunking control at all, \<open>get_batch\<close> yields exactly one chunk,
  the pair of \<open>range(0, obs_dets)\<close> and \<open>(0, obs_samps)\<close>.
\<close>

theorem no_controls_full_observation:
  "get_batch D S None no_controls = Some (Inr [(Range 0 D, (0, S))])"
  by (simp add: get_batch_def get_batch_chunks_def resolve_blocks_def det_count_block_def
      samp_count_block_def det_size_block_def samp_size_block_def default_chunks_def
      no_controls_def)

subsection \<open>The \<open>ram_limit\<close> sizing\<close>

lemma div_ge_one: "1 \<le> (k::int) \<Longrightarrow> k \<le> S \<Longrightarrow> 1 \<le> S div k"
  using zdiv_mono1 [of k S k] by simp

lemma div_zero_less: "1 \<le> (p::int) \<Longrightarrow> 1 \<le> n \<Longrightarrow> p div n = 0 \<Longrightarrow> p < n"
  by (auto simp: zdiv_eq_0_iff)

lemma div_pos_of_ge: "1 \<le> (p::int) \<Longrightarrow> 1 \<le> n \<Longrightarrow> p div n \<noteq> 0 \<Longrightarrow> 0 < p div n"
  using pos_imp_zdiv_nonneg_iff [of n p] by simp

lemma mult_div_le_int: "1 \<le> (k::int) \<Longrightarrow> k * (S div k) \<le> S"
  using mult_div_mod_eq [of k S] pos_mod_sign [of k S] by linarith

lemma two_le_div: "1 \<le> (k::int) \<Longrightarrow> 2 \<le> S div k \<Longrightarrow> k + 1 \<le> S"
proof -
  assume k: "1 \<le> k" and d: "2 \<le> S div k"
  have "k * 2 \<le> k * (S div k)" using k d by (intro mult_left_mono) auto
  also have "\<dots> \<le> S" using k by (rule mult_div_le_int)
  finally show ?thesis using k by simp
qed

lemma ram_search_result:
  assumes "1 \<le> pts" "1 \<le> k" "k \<le> S"
  shows "\<exists>k'. ram_search pts S k (S div k) (pts div (S div k))
                 = Some (Inr (k', S div k', pts div (S div k')))
              \<and> k \<le> k' \<and> k' \<le> S \<and> 0 < pts div (S div k')"
  using assms
proof (induction "nat (S - k)" arbitrary: k rule: less_induct)
  case less
  have ns: "1 \<le> S div k" using less.prems by (simp add: div_ge_one)
  show ?case
  proof (cases "pts div (S div k) = 0")
    case False
    then have "0 < pts div (S div k)" using less.prems ns by (simp add: div_pos_of_ge)
    then show ?thesis using less.prems
      by (subst ram_search.simps) auto
  next
    case True
    have "pts < S div k" using True ns less.prems by (simp add: div_zero_less)
    hence "2 \<le> S div k" using less.prems by simp
    hence k1: "k + 1 \<le> S" using less.prems by (simp add: two_le_div)
    hence ns1: "1 \<le> S div (k + 1)" using less.prems by (simp add: div_ge_one)
    have "nat (S - (k + 1)) < nat (S - k)" using k1 by simp
    from less.hyps[OF this] k1 less.prems obtain k' where
      "ram_search pts S (k + 1) (S div (k + 1)) (pts div (S div (k + 1)))
         = Some (Inr (k', S div k', pts div (S div k')))"
      "k + 1 \<le> k'" "k' \<le> S" "0 < pts div (S div k')" by force
    then show ?thesis using True ns1 less.prems
      by (subst ram_search.simps) (auto simp: py_floordiv_def intro!: exI[of _ k'])
  qed
qed

lemma ram_sizing_result:
  assumes "4 \<le> r" "1 \<le> S"
  shows "\<exists>k. ram_sizing r S = Some (Inr (k, S div k, (r div 4) div (S div k)))
             \<and> 1 \<le> k \<and> k \<le> S \<and> 0 < (r div 4) div (S div k)"
proof -
  have pts: "1 \<le> r div 4" using assms(1) by (simp add: div_ge_one)
  from ram_search_result [of "r div 4" 1 S] pts assms(2)
  show ?thesis by (simp add: ram_sizing_def py_floordiv_def Let_def)
qed

text \<open>
  Claim C5: for \<open>ram_limit \<ge> 4\<close> and at least one sample, the sizing of lines
  162-169 returns, without raising: it leaves the loop with a positive detector count
  per chunk and a sample chunk count between 1 and the number of samples.
\<close>

theorem ram_search_terminates:
  assumes "4 \<le> r" and "1 \<le> S"
  shows "\<exists>nsc ns nd. ram_sizing r S = Some (Inr (nsc, ns, nd))
                      \<and> 1 \<le> nsc \<and> nsc \<le> S \<and> 0 < nd"
  using ram_sizing_result [OF assms] by blast

theorem ram_search_terminates_witness:
  "(4::int) \<le> 8 \<and> (1::int) \<le> 3
   \<and> (\<exists>nsc ns nd. ram_sizing 8 3 = Some (Inr (nsc, ns, nd)) \<and> 1 \<le> nsc \<and> nsc \<le> 3 \<and> 0 < nd)"
  using ram_search_terminates [of 8 3] by simp

text \<open>
  What the search itself guarantees: the sizes it stops at, taken with the floor
  division of line 168, are within the budget of \<open>ram_limit // 4\<close> points.
\<close>

lemma ram_sizing_within_budget:
  assumes "4 \<le> r" and "1 \<le> S" and "ram_sizing r S = Some (Inr (nsc, ns, nd))"
  shows "ns = S div nsc \<and> ns * nd \<le> r div 4"
proof -
  from ram_sizing_result [OF assms(1,2)] assms(3)
  have k: "ns = S div nsc" "nd = (r div 4) div ns" "1 \<le> nsc" "nsc \<le> S" by auto
  then have "1 \<le> ns" by (simp add: div_ge_one)
  then show ?thesis using k mult_div_le_int [of ns "r div 4"] by simp
qed

text \<open>
  Claim C2 fails on the code. For 2 detectors, 3 samples and \<open>ram_limit=8\<close> the
  search stops at 2 sample chunks with \<open>n_samps = 3 // 2 = 1\<close> and \<open>n_dets = 2\<close>, which
  fit the budget of 2 points; line 177 then recomputes \<open>n_samps\<close> as
  \<open>ceil(3 / 2) = 2\<close>, and the first chunk yielded has 2 detectors and 2 samples:
  16 bytes against a limit of 8.
\<close>

theorem ram_limit_exceeded:
  "get_batch 2 3 (Some 8) no_controls
     = Some (Inr [(Range 0 2, (0, 2)), (Range 0 2, (2, 3))])
   \<and> chunk_bytes (Range 0 2, (0, 2)) = 16
   \<and> \<not> chunk_bytes (Range 0 2, (0, 2)) \<le> 8"
  by code_simp

subsection \<open>The order of the chunks\<close>

lemma samp_loop_map: "samp_loop d scs = map (Pair d) scs"
  by (induction scs) simp_all

lemma det_loop_product: "det_loop dcs scs = List.product dcs scs"
  by (induction dcs) (simp_all add: samp_loop_map)

text \<open>
  Claim C4: whatever the controls, once the chunk lists are resolved the pairs that
  \<open>get_batch\<close> yields are the Cartesian product of the detector chunks and the sample
  chunks, detector chunks outermost: the pair of detector chunk \<open>i\<close> and sample chunk
  \<open>j\<close> is the item number \<open>i * len(samp_chunks) + j\<close>.
\<close>

theorem chunks_outer_det_inner_samp:
  assumes "get_batch_chunks D S rl c = Some (Inr (dcs, scs))"
  shows "get_batch D S rl c = Some (Inr (List.product dcs scs))
         \<and> length (List.product dcs scs) = length dcs * length scs
         \<and> (\<forall>i j. i < length dcs \<and> j < length scs \<longrightarrow>
               List.product dcs scs ! (i * length scs + j) = (dcs ! i, scs ! j))"
proof (intro conjI allI impI)
  show "get_batch D S rl c = Some (Inr (List.product dcs scs))"
    using assms by (simp add: get_batch_def det_loop_product)
  show "length (List.product dcs scs) = length dcs * length scs"
    by simp
next
  fix i j assume ij: "i < length dcs \<and> j < length scs"
  then have "i * length scs + j < length scs * (i + 1)" by (simp add: algebra_simps)
  also have "\<dots> \<le> length scs * length dcs" using ij by (intro mult_le_mono2) simp
  finally have lt: "i * length scs + j < length dcs * length scs" by (simp add: mult.commute)
  have pos: "0 < length scs" using ij by auto
  have "(i * length scs + j) div length scs = i" "(i * length scs + j) mod length scs = j"
    using ij pos by simp_all
  then show "List.product dcs scs ! (i * length scs + j) = (dcs ! i, scs ! j)"
    using lt by (simp add: product_nth)
qed

theorem chunks_outer_det_inner_samp_witness:
  "get_batch_chunks 4 5 None (no_controls\<lparr>n_dets := Some 2, n_samps := Some 3\<rparr>)
     = Some (Inr ([Range 0 2, Range 2 4], [(0, 3), (3, 5)]))
   \<and> get_batch 4 5 None (no_controls\<lparr>n_dets := Some 2, n_samps := Some 3\<rparr>)
     = Some (Inr [(Range 0 2, (0, 3)), (Range 0 2, (3, 5)),
                  (Range 2 4, (0, 3)), (Range 2 4, (3, 5))])"
proof -
  have h: "get_batch_chunks 4 5 None (no_controls\<lparr>n_dets := Some 2, n_samps := Some 3\<rparr>)
             = Some (Inr ([Range 0 2, Range 2 4], [(0, 3), (3, 5)]))"
    by code_simp
  show ?thesis
    using h chunks_outer_det_inner_samp [OF h] by simp
qed

subsection \<open>Derived chunks partition the axis\<close>

lemma div_mod_bounds:
  assumes "1 \<le> (n::int)"
  shows "n * (x div n) \<le> x" and "x < n * (x div n) + n"
proof -
  define q where "q = x div n"
  define m where "m = x mod n"
  have e: "n * q + m = x" unfolding q_def m_def by (rule mult_div_mod_eq)
  have m: "0 \<le> m" "m < n" using assms unfolding m_def by simp_all
  show "n * (x div n) \<le> x" "x < n * (x div n) + n"
    unfolding q_def [symmetric] using e m by linarith+
qed

lemma ceil_bounds:
  assumes "1 \<le> (n::int)"
  shows "(- ((- D) div n) - 1) * n < D" and "D \<le> - ((- D) div n) * n"
  using div_mod_bounds [OF assms, of "- D"] by (simp_all add: algebra_simps)

lemma ceil_nonneg: "1 \<le> (n::int) \<Longrightarrow> 0 \<le> D \<Longrightarrow> 0 \<le> - ((- D) div n)"
  by (simp add: div_nonpos_pos_le0)

lemma chunk_start_less:
  assumes n: "1 \<le> (n::int)" and i: "int i < - ((- D) div n)"
  shows "int i * n < D"
proof -
  have "int i * n \<le> (- ((- D) div n) - 1) * n" using n i by (intro mult_right_mono) auto
  also have "\<dots> < D" using n by (rule ceil_bounds)
  finally show ?thesis .
qed

lemma samp_ranges_nth:
  "i < nat k \<Longrightarrow> samp_ranges n D k ! i = (int i * n, min ((int i + 1) * n) D)"
  by (simp add: samp_ranges_def py_range_def)

lemma samp_ranges_length: "length (samp_ranges n D k) = nat k"
  by (simp add: samp_ranges_def py_range_def)

lemma samp_ranges_partition:
  assumes n: "1 \<le> n"
  shows "partitions D (samp_ranges n D (- ((- D) div n)))"
proof -
  let ?k = "- ((- D) div n)"
  let ?bs = "samp_ranges n D ?k"
  have nth: "\<And>i. i < nat ?k \<Longrightarrow> ?bs ! i = (int i * n, min ((int i + 1) * n) D)"
    by (rule samp_ranges_nth)
  have len: "length ?bs = nat ?k" by (rule samp_ranges_length)
  have start: "\<And>i. i < nat ?k \<Longrightarrow> int i * n < D"
    using n by (intro chunk_start_less) auto
  have contiguous: "map snd (butlast ?bs) = map fst (tl ?bs)"
  proof (rule nth_equalityI)
    show "length (map snd (butlast ?bs)) = length (map fst (tl ?bs))" by simp
  next
    fix i assume "i < length (map snd (butlast ?bs))"
    then have i: "Suc i < nat ?k" using len by simp
    then have "int (Suc i) * n < D" by (rule start)
    then have "min ((int i + 1) * n) D = (int i + 1) * n" by (simp add: algebra_simps)
    then show "map snd (butlast ?bs) ! i = map fst (tl ?bs) ! i"
      using i len nth [of i] nth [of "Suc i"] by (simp add: nth_butlast nth_tl algebra_simps)
  qed
  have increasing: "sorted_wrt (<) (map fst ?bs)"
    unfolding sorted_wrt_iff_nth_less
  proof (intro allI impI)
    fix i j assume ij: "i < j" and j: "j < length (map fst ?bs)"
    then have "int i * n < int j * n" using n by simp
    then show "map fst ?bs ! i < map fst ?bs ! j"
      using ij j len nth [of i] nth [of j] by simp
  qed
  have disjoint: "sorted_wrt (\<lambda>b c. {fst b..<snd b} \<inter> {fst c..<snd c} = {}) ?bs"
    unfolding sorted_wrt_iff_nth_less
  proof (intro allI impI)
    fix i j assume ij: "i < j" and j: "j < length ?bs"
    have "int i + 1 \<le> int j" using ij by simp
    then have "(int i + 1) * n \<le> int j * n" using n by (intro mult_right_mono) auto
    then have "snd (?bs ! i) \<le> fst (?bs ! j)"
      using ij j len nth [of i] nth [of j] by simp
    then show "{fst (?bs ! i)..<snd (?bs ! i)} \<inter> {fst (?bs ! j)..<snd (?bs ! j)} = {}"
      by auto
  qed
  have cover: "(\<Union>b\<in>set ?bs. {fst b..<snd b}) = {0..<D}"
  proof (intro set_eqI iffI)
    fix x assume "x \<in> (\<Union>b\<in>set ?bs. {fst b..<snd b})"
    then obtain b where b: "b \<in> set ?bs" "fst b \<le> x" "x < snd b" by auto
    then obtain i where i: "i < nat ?k" "b = ?bs ! i"
      using len by (metis in_set_conv_nth)
    have "0 \<le> int i * n" using n by simp
    then show "x \<in> {0..<D}" using b i nth [of i] by simp
  next
    fix x assume "x \<in> {0..<D}"
    then have x: "0 \<le> x" "x < D" by simp_all
    let ?i = "nat (x div n)"
    have q: "0 \<le> x div n" using x n by (simp add: pos_imp_zdiv_nonneg_iff)
    have lo: "(x div n) * n \<le> x" and hi: "x < (x div n + 1) * n"
      using div_mod_bounds [OF n, of x] by (simp_all add: algebra_simps)
    have lt: "(x div n) * n < ?k * n" using lo x ceil_bounds(2) [OF n, of D] by linarith
    have "x div n < ?k"
    proof (rule ccontr)
      assume "\<not> x div n < ?k"
      then have "?k * n \<le> (x div n) * n" using n by (intro mult_right_mono) auto
      with lt show False by simp
    qed
    then have i: "?i < nat ?k" using q by simp
    have "x \<in> {fst (?bs ! ?i)..<snd (?bs ! ?i)}"
      using nth [OF i] q lo hi x by simp
    moreover have "?bs ! ?i \<in> set ?bs" using i len by simp
    ultimately show "x \<in> (\<Union>b\<in>set ?bs. {fst b..<snd b})" by blast
  qed
  show ?thesis
    unfolding partitions_def using contiguous increasing disjoint cover by blast
qed

lemma det_ranges_samp_ranges:
  "det_ranges n D k = map (\<lambda>(a, b). Range a b) (samp_ranges n D k)"
  by (simp add: det_ranges_def samp_ranges_def)

lemma samp_side_partition:
  assumes "samp_side S nsc ns sc = Some scs" and "0 \<le> S"
    and "(\<exists>k. nsc = Some k \<and> 1 \<le> k) \<or> nsc = None \<and> (\<exists>n. ns = Some n \<and> 1 \<le> n)"
  shows "\<exists>n. 1 \<le> n \<and> scs = samp_ranges n S (- ((- S) div n))"
  using assms(3)
proof (elim disjE exE conjE)
  fix k assume k: "nsc = Some k" "1 \<le> k"
  let ?n = "- ((- S) div k)"
  have "0 \<le> ?n" using k assms(2) by (intro ceil_nonneg) auto
  moreover have "?n \<noteq> 0" "scs = samp_ranges ?n S (- ((- S) div ?n))"
    using assms(1) k by (auto simp: samp_side_def split: if_splits)
  ultimately show ?thesis by (intro exI [of _ ?n]) simp
next
  fix n assume "nsc = None" "ns = Some n" "1 \<le> n"
  then show ?thesis using assms(1) by (auto simp: samp_side_def split: if_splits)
qed

lemma det_side_partition:
  assumes "det_side D ndc nd dc = Some dcs" and "0 \<le> D"
    and "(\<exists>k. ndc = Some k \<and> 1 \<le> k) \<or> ndc = None \<and> (\<exists>n. nd = Some n \<and> 1 \<le> n)"
  shows "\<exists>n. 1 \<le> n \<and> dcs = det_ranges n D (- ((- D) div n))"
  using assms(3)
proof (elim disjE exE conjE)
  fix k assume k: "ndc = Some k" "1 \<le> k"
  let ?n = "- ((- D) div k)"
  have "0 \<le> ?n" using k assms(2) by (intro ceil_nonneg) auto
  moreover have "?n \<noteq> 0" "dcs = det_ranges ?n D (- ((- D) div ?n))"
    using assms(1) k by (auto simp: det_side_def split: if_splits)
  ultimately show ?thesis by (intro exI [of _ ?n]) simp
next
  fix n assume "ndc = None" "nd = Some n" "1 \<le> n"
  then show ?thesis using assms(1) by (auto simp: det_side_def split: if_splits)
qed

lemma get_batch_chunks_ram_sides:
  assumes "get_batch_chunks D S (Some r) c = Some (Inr (dcs, scs))"
    and "4 \<le> r" and "0 \<le> D" and "0 \<le> S"
  shows "\<exists>ndc nsc. 1 \<le> ndc \<and> 1 \<le> nsc
           \<and> det_side D (Some ndc) None None = Some dcs
           \<and> samp_side S (Some nsc) None None = Some scs"
proof -
  have "S \<noteq> 0"
    using assms(1) by (auto simp: get_batch_chunks_ram ram_sizing_def py_floordiv_def)
  then have S: "1 \<le> S" using assms(4) by simp
  from ram_sizing_result [OF assms(2) S] obtain k where
    k: "ram_sizing r S = Some (Inr (k, S div k, (r div 4) div (S div k)))"
       "1 \<le> k" "0 < (r div 4) div (S div k)" by blast
  let ?nd = "(r div 4) div (S div k)"
  let ?ndc = "- ((- D) div ?nd)"
  have sides: "det_side D (Some ?ndc) None None = Some dcs"
              "samp_side S (Some k) None None = Some scs"
    using assms(1) k
    by (auto simp: get_batch_chunks_ram py_ceildiv_def split: option.splits)
  have "0 \<le> ?ndc" using k(3) assms(3) by (intro ceil_nonneg) auto
  moreover have "?ndc \<noteq> 0" using sides(1) by (auto simp: det_side_def split: if_splits)
  ultimately have "1 \<le> ?ndc" by simp
  then show ?thesis using sides k(2) by blast
qed

text \<open>
  The sizes the planner derives are no larger than what they are derived from: a
  ceiling of \<open>D / n\<close> is at most \<open>D\<close> and a floor quotient \<open>p // n\<close> at most \<open>p\<close>, for
  \<open>n \<ge> 1\<close>. So when the sizes of the observation and the controls are below a
  bound, the operands of every ceiling are.
\<close>

lemma ceil_le_numerator:
  assumes "1 \<le> (n::int)" and "0 \<le> D"
  shows "- ((- D) div n) \<le> D"
proof (rule ccontr)
  assume "\<not> - ((- D) div n) \<le> D"
  then have "D \<le> - ((- D) div n) - 1" by simp
  then have "D * n \<le> (- ((- D) div n) - 1) * n" using assms(1) by (intro mult_right_mono) auto
  moreover have "D * 1 \<le> D * n" using assms by (intro mult_left_mono) auto
  ultimately show False using ceil_bounds(1) [OF assms(1), of D] by simp
qed

lemma floor_le_numerator:
  assumes "1 \<le> (n::int)" and "0 \<le> p"
  shows "p div n \<le> p"
proof -
  have q: "0 \<le> p div n" using assms by (simp add: pos_imp_zdiv_nonneg_iff)
  have "1 * (p div n) \<le> n * (p div n)" using assms(1) q by (intro mult_right_mono) auto
  also have "\<dots> \<le> p" using assms(1) by (rule mult_div_le_int)
  finally show ?thesis by simp
qed

text \<open>
  Claim C8, as the code has it. When \<open>get_batch\<close> returns for an observation of
  sizes \<open>0 \<le> obs_dets < 2^53\<close> and \<open>0 \<le> obs_samps < 2^53\<close> and the detector chunks
  come from a positive control below \<open>2^53\<close> (\<open>4 \<le> ram_limit < 2^53\<close>, else
  \<open>1 \<le> n_det_chunks < 2^53\<close>, else \<open>1 \<le> n_dets < 2^53\<close>), they are \<open>range\<close> objects
  that are contiguous, in increasing order, pairwise disjoint and cover exactly
  \<open>[0, obs_dets)\<close>; likewise the sample chunks over \<open>[0, obs_samps)\<close>. Under these
  bounds every ceiling the planner takes has operands in the range where the double
  quotient gives the exact ceiling: the detector count per chunk is at most
  \<open>ram_limit // 4\<close> or \<open>obs_dets\<close>, and a chunk count is at most the size of its axis.
\<close>

theorem derived_chunks_partition:
  assumes "get_batch_chunks D S rl c = Some (Inr (dcs, scs))"
    and "0 \<le> D" and "0 \<le> S" and "D < 2 ^ 53" and "S < 2 ^ 53"
  shows "((\<exists>r. rl = Some r \<and> 4 \<le> r \<and> r < 2 ^ 53)
            \<or> rl = None \<and> (\<exists>k. n_det_chunks c = Some k \<and> 1 \<le> k \<and> k < 2 ^ 53)
            \<or> rl = None \<and> n_det_chunks c = None \<and> (\<exists>n. n_dets c = Some n \<and> 1 \<le> n \<and> n < 2 ^ 53)
          \<longrightarrow> (\<exists>bs. dcs = map (\<lambda>(a, b). Range a b) bs \<and> partitions D bs))
       \<and> ((\<exists>r. rl = Some r \<and> 4 \<le> r \<and> r < 2 ^ 53)
            \<or> rl = None \<and> (\<exists>k. n_samp_chunks c = Some k \<and> 1 \<le> k \<and> k < 2 ^ 53)
            \<or> rl = None \<and> n_samp_chunks c = None \<and> (\<exists>n. n_samps c = Some n \<and> 1 \<le> n \<and> n < 2 ^ 53)
          \<longrightarrow> partitions S scs)"
proof (intro conjI impI)
  assume h: "(\<exists>r. rl = Some r \<and> 4 \<le> r \<and> r < 2 ^ 53)
            \<or> rl = None \<and> (\<exists>k. n_det_chunks c = Some k \<and> 1 \<le> k \<and> k < 2 ^ 53)
            \<or> rl = None \<and> n_det_chunks c = None \<and> (\<exists>n. n_dets c = Some n \<and> 1 \<le> n \<and> n < 2 ^ 53)"
  have "\<exists>n. 1 \<le> n \<and> dcs = det_ranges n D (- ((- D) div n))"
  proof (cases rl)
    case (Some r)
    with h have "4 \<le> r" by simp
    from get_batch_chunks_ram_sides [OF assms(1) [unfolded Some] this assms(2,3)]
    obtain ndc where "1 \<le> ndc" "det_side D (Some ndc) None None = Some dcs" by blast
    then show ?thesis using assms(2) by (intro det_side_partition) auto
  next
    case None
    have "det_side D (n_det_chunks c) (n_dets c) (det_chunks c) = Some dcs"
      using assms(1) None by (auto simp: get_batch_chunks_None split: option.splits)
    then show ?thesis using assms(2) h None by (intro det_side_partition) auto
  qed
  then obtain n where n: "1 \<le> n" "dcs = det_ranges n D (- ((- D) div n))" by blast
  show "\<exists>bs. dcs = map (\<lambda>(a, b). Range a b) bs \<and> partitions D bs"
    using n samp_ranges_partition [OF n(1), of D] det_ranges_samp_ranges by blast
next
  assume h: "(\<exists>r. rl = Some r \<and> 4 \<le> r \<and> r < 2 ^ 53)
            \<or> rl = None \<and> (\<exists>k. n_samp_chunks c = Some k \<and> 1 \<le> k \<and> k < 2 ^ 53)
            \<or> rl = None \<and> n_samp_chunks c = None \<and> (\<exists>n. n_samps c = Some n \<and> 1 \<le> n \<and> n < 2 ^ 53)"
  have "\<exists>n. 1 \<le> n \<and> scs = samp_ranges n S (- ((- S) div n))"
  proof (cases rl)
    case (Some r)
    with h have "4 \<le> r" by simp
    from get_batch_chunks_ram_sides [OF assms(1) [unfolded Some] this assms(2,3)]
    obtain nsc where "1 \<le> nsc" "samp_side S (Some nsc) None None = Some scs" by blast
    then show ?thesis using assms(3) by (intro samp_side_partition) auto
  next
    case None
    have "samp_side S (n_samp_chunks c) (n_samps c) (samp_chunks c) = Some scs"
      using assms(1) None by (auto simp: get_batch_chunks_None split: option.splits)
    then show ?thesis using assms(3) h None by (intro samp_side_partition) auto
  qed
  then obtain n where n: "1 \<le> n" "scs = samp_ranges n S (- ((- S) div n))" by blast
  show "partitions S scs"
    using n samp_ranges_partition [OF n(1), of S] by simp
qed

theorem derived_chunks_partition_witness:
  "get_batch_chunks 10 7 None (no_controls\<lparr>n_det_chunks := Some 4, n_samps := Some 3\<rparr>)
     = Some (Inr ([Range 0 3, Range 3 6, Range 6 9, Range 9 10], [(0, 3), (3, 6), (6, 7)]))
   \<and> (\<exists>bs. [Range 0 3, Range 3 6, Range 6 9, Range 9 10] = map (\<lambda>(a, b). Range a b) bs
            \<and> partitions 10 bs)
   \<and> partitions 7 [(0, 3), (3, 6), (6, 7)]
   \<and> get_batch_chunks 2 3 (Some 8) no_controls
     = Some (Inr ([Range 0 2], [(0, 2), (2, 3)]))
   \<and> (\<exists>bs. [Range 0 2] = map (\<lambda>(a, b). Range a b) bs \<and> partitions 2 bs)
   \<and> partitions 3 [(0, 2), (2, 3)]"
proof -
  have h1: "get_batch_chunks 10 7 None (no_controls\<lparr>n_det_chunks := Some 4, n_samps := Some 3\<rparr>)
     = Some (Inr ([Range 0 3, Range 3 6, Range 6 9, Range 9 10], [(0, 3), (3, 6), (6, 7)]))"
    by code_simp
  have h2: "get_batch_chunks 2 3 (Some 8) no_controls
     = Some (Inr ([Range 0 2], [(0, 2), (2, 3)]))"
    by code_simp
  show ?thesis
    using h1 h2 derived_chunks_partition [OF h1] derived_chunks_partition [OF h2]
    by (simp add: no_controls_def)
qed

text \<open>
  Without the positivity the claim fails: the planner accepts \<open>n_dets=-3\<close>, computes
  \<open>int(np.ceil(10 / -3)) = -3\<close> chunks, and returns no detector chunk at all for 10
  detectors.
\<close>

theorem negative_size_no_partition:
  "get_batch_chunks 10 3 None (no_controls\<lparr> n_dets := Some (- 3) \<rparr>) = Some (Inr ([], [(0, 3)]))
   \<and> \<not> partitions 10 []"
  by (simp add: partitions_def) code_simp

subsection \<open>Closing the generator\<close>

lemma gen_close_clean: "gen_close cl g tr = (None, Finished, tr)"
  by (cases g) (simp_all add: gen_close_def gen_throw_def)

lemma consume_Suspended:
  "consume cl n (Suspended pending) tr0 = Some (items, g, tr) \<Longrightarrow>
     length items \<le> n \<and> (\<exists>m\<le>n. tr = tr0 @ (if test cl then [] else take m pending))"
proof (induction n arbitrary: pending tr0 items)
  case 0
  then show ?case by simp
next
  case (Suc n)
  show ?case
  proof (cases pending)
    case Nil
    with Suc.prems have "tr = tr0" "items = []" by (auto simp: gen_next_def run_loops_def)
    then show ?thesis using Nil by (auto intro!: exI [of _ 0])
  next
    case (Cons p rest)
    obtain d s where p: "p = (d, s)" by (cases p)
    show ?thesis
    proof (cases "test cl")
      case True
      with Suc.prems Cons p obtain xs where
        xs: "consume cl n (Suspended rest) tr0 = Some (xs, g, tr)" "items = Chunk d s # xs"
        by (auto simp: gen_next_def run_loops_def split: option.splits)
      from Suc.IH [OF xs(1)] True xs(2) show ?thesis by auto
    next
      case False
      show ?thesis
      proof (cases "load_file cl d s")
        case (Inl e)
        with Suc.prems Cons p False have "tr = tr0 @ [(d, s)]" "items = []"
          by (auto simp: gen_next_def run_loops_def split: if_splits)
        then show ?thesis using False Cons p by (auto intro!: exI [of _ 1])
      next
        case (Inr a)
        with Suc.prems Cons p False obtain xs where
          xs: "consume cl n (Suspended rest) (tr0 @ [(d, s)]) = Some (xs, g, tr)"
              "items = Loaded a # xs"
          by (auto simp: gen_next_def run_loops_def split: option.splits)
        from Suc.IH [OF xs(1)] False obtain m where
          m: "length xs \<le> n" "m \<le> n" "tr = (tr0 @ [(d, s)]) @ take m rest" by auto
        then show ?thesis using False Cons p xs(2)
          by (auto intro!: exI [of _ "Suc m"])
      qed
    qed
  qed
qed

lemma consume_Created_Suc:
  "consume cl (Suc n) Created tr0 =
     (case get_batch (db_dets cl) (db_samps cl) (ram_limit cl) (ctl cl) of
        None \<Rightarrow> None
      | Some (Inl e) \<Rightarrow> Some ([], Finished, tr0)
      | Some (Inr ps) \<Rightarrow> consume cl (Suc n) (Suspended ps) tr0)"
  by (simp add: gen_next_def get_batch_def split: option.splits sum.splits prod.splits)

text \<open>
  Claim C7: after a consumer has taken any number \<open>n\<close> of items, closing the
  generator returns normally, changes nothing outside (the trace of \<open>load_file\<close> calls
  is the one before the close, and holds calls for at most the first \<open>n\<close> chunks of
  the plan, none with \<open>test=True\<close>), and leaves the generator finished: a later
  \<open>next\<close> stops at once and loads nothing.
\<close>

theorem close_after_prefix:
  assumes "consume cl n Created tr0 = Some (items, g, tr)"
  shows "gen_close cl g tr = (None, Finished, tr)
         \<and> gen_next cl Finished tr = Some (Returned, Finished, tr)
         \<and> length items \<le> n
         \<and> (\<exists>m\<le>n. tr = tr0 @ (if test cl then []
               else take m (case get_batch (db_dets cl) (db_samps cl) (ram_limit cl) (ctl cl) of
                              Some (Inr ps) \<Rightarrow> ps | _ \<Rightarrow> [])))"
proof -
  have "length items \<le> n
         \<and> (\<exists>m\<le>n. tr = tr0 @ (if test cl then []
               else take m (case get_batch (db_dets cl) (db_samps cl) (ram_limit cl) (ctl cl) of
                              Some (Inr ps) \<Rightarrow> ps | _ \<Rightarrow> [])))"
  proof (cases n)
    case 0
    with assms show ?thesis by simp
  next
    case (Suc k)
    show ?thesis
    proof (cases "get_batch (db_dets cl) (db_samps cl) (ram_limit cl) (ctl cl)")
      case None
      with assms Suc show ?thesis by (simp add: consume_Created_Suc del: consume.simps)
    next
      case (Some res)
      show ?thesis
      proof (cases res)
        case (Inl e)
        with assms Suc Some have "tr = tr0" "items = []"
          by (simp_all add: consume_Created_Suc del: consume.simps)
        then show ?thesis by (auto intro!: exI [of _ 0])
      next
        case (Inr ps)
        with assms Suc Some have "consume cl n (Suspended ps) tr0 = Some (items, g, tr)"
          by (simp add: consume_Created_Suc del: consume.simps)
        from consume_Suspended [OF this] Some Inr show ?thesis by auto
      qed
    qed
  qed
  then show ?thesis by (simp add: gen_close_clean gen_next_def)
qed

theorem close_after_prefix_witness:
  "consume \<lparr> db_dets = 4, db_samps = 5, ram_limit = None,
             ctl = no_controls\<lparr>n_dets := Some 2, n_samps := Some 3\<rparr>,
             test = False, load_file = (\<lambda>d s. Inr (d, s)) \<rparr> 3 Created []
     = Some ([Loaded (Range 0 2, (0, 3)), Loaded (Range 0 2, (3, 5)), Loaded (Range 2 4, (0, 3))],
             Suspended [(Range 2 4, (3, 5))],
             [(Range 0 2, (0, 3)), (Range 0 2, (3, 5)), (Range 2 4, (0, 3))])
   \<and> gen_close \<lparr> db_dets = 4, db_samps = 5, ram_limit = None,
             ctl = no_controls\<lparr>n_dets := Some 2, n_samps := Some 3\<rparr>,
             test = False, load_file = (\<lambda>d s. Inr (d, s)) \<rparr>
         (Suspended [(Range 2 4, (3, 5))])
         [(Range 0 2, (0, 3)), (Range 0 2, (3, 5)), (Range 2 4, (0, 3))]
     = (None, Finished, [(Range 0 2, (0, 3)), (Range 0 2, (3, 5)), (Range 2 4, (0, 3))])"
proof -
  have h: "consume \<lparr> db_dets = 4, db_samps = 5, ram_limit = None,
             ctl = no_controls\<lparr>n_dets := Some 2, n_samps := Some 3\<rparr>,
             test = False, load_file = (\<lambda>d s. Inr (d, s)) \<rparr> 3 Created []
     = Some ([Loaded (Range 0 2, (0, 3)), Loaded (Range 0 2, (3, 5)), Loaded (Range 2 4, (0, 3))],
             Suspended [(Range 2 4, (3, 5))],
             [(Range 0 2, (0, 3)), (Range 0 2, (3, 5)), (Range 2 4, (0, 3))])"
    by code_simp
  show ?thesis
    using h close_after_prefix [OF h] by simp
qed

section \<open>Properties of the observation loop\<close>

subsection \<open>A failing observation does not stop the loop\<close>






subsection \<open>The observation query\<close>

text \<open>
  With \<open>obs_id\<close> the query is \<open>obs_id=='<obs_id>'\<close> whatever the other filters are;
  with nothing at all it is \<open>1\<close>; with at least one filter and no \<open>obs_id\<close> it is the
  conjunction of the specification followed by one space, because the slice
  \<open>[4:-4]\<close> removes four of the five characters of the last \<open>" and "\<close>.
\<close>

lemma py_slice_and: "py_slice 4 4 (''and '' @ X @ '' and '') = X @ '' ''"
  by (simp add: py_slice_def)

lemma build_query_obs_id:
  "build_query (Some oid) query_text min_ctime max_ctime = ''obs_id=='' @ [CHR 0x27] @ oid @ [CHR 0x27]"
  by (simp add: build_query_def)

lemma build_query_none: "build_query None None None None = ''1''"
  by (simp add: build_query_def py_slice_def)

lemma query_accumulated:
  "build_query None query_text min_ctime max_ctime =
     (let q4 = py_slice 4 4
                 (''and '' @ concat (map (\<lambda>f. f @ '' and '')
                                       (spec_filters query_text min_ctime max_ctime)))
      in if q4 = [] then ''1'' else q4)"
  by (cases query_text; cases min_ctime; cases max_ctime)
     (simp_all add: build_query_def spec_filters_def Let_def)

lemma concat_conjunction:
  "fs \<noteq> [] \<Longrightarrow> concat (map (\<lambda>f. f @ '' and '') fs) = spec_conjunction fs @ '' and ''"
  by (induction fs rule: spec_conjunction.induct) simp_all

lemma build_query_filters:
  assumes "query_text \<noteq> None \<or> min_ctime \<noteq> None \<or> max_ctime \<noteq> None"
  shows "build_query None query_text min_ctime max_ctime
           = spec_conjunction (spec_filters query_text min_ctime max_ctime) @ '' ''"
proof -
  let ?fs = "spec_filters query_text min_ctime max_ctime"
  have "?fs \<noteq> []"
    using assms by (auto simp: spec_filters_def)
  then have c: "concat (map (\<lambda>f. f @ '' and '') ?fs) = spec_conjunction ?fs @ '' and ''"
    by (rule concat_conjunction)
  have q4: "py_slice 4 4 (''and '' @ concat (map (\<lambda>f. f @ '' and '') ?fs))
              = spec_conjunction ?fs @ '' ''"
    unfolding c by (rule py_slice_and)
  have ne: "spec_conjunction ?fs @ '' '' \<noteq> []" by simp
  show ?thesis
    unfolding query_accumulated Let_def q4 using ne by (simp only: if_False)
qed

text \<open>
  Claim C10 fails on the code in its second case. For \<open>query_text="a"\<close> and
  \<open>min_ctime=5\<close> the code builds \<open>"a and timestamp>=5 "\<close>, with a trailing space, and
  the conjunction of the supplied filters is \<open>"a and timestamp>=5"\<close>.
\<close>

theorem query_trailing_space:
  "build_query None (Some ''a'') (Some 5) None = ''a and timestamp>=5 ''
   \<and> spec_conjunction (spec_filters (Some ''a'') (Some 5) None) = ''a and timestamp>=5''"
  by code_simp

end
